theory Spec2Isabelle
  imports Main "HOL-Library.AList"
begin

section \<open>GroupsService: the group cache and the batched contract update\<close>

text \<open>
  A shallow embedding of \<^verbatim>\<open>apps/api/src/app/groups/groups.service.ts\<close>. The service
  object's fields and the collaborators it talks to are one explicit state record; every
  method takes the state and returns its result together with the state it leaves behind,
  also when it throws, so that what a failed call has already written stays visible.
\<close>

subsection \<open>Exceptions and log lines\<close>

text \<open>
  Every \<^verbatim>\<open>throw\<close> of the service is a constructor, its arguments the values the source
  interpolates into the message:
  \<^item> \<open>MemberAlreadyExists member groupName\<close>: \<^verbatim>\<open>BadRequestException("Member '..' already
    exists in the group '..'")\<close>;
  \<^item> \<open>MemberDoesNotExist member groupName\<close>: \<^verbatim>\<open>BadRequestException("Member '..' does not
    exist in the group '..'")\<close>;
  \<^item> \<open>GroupDoesNotExist groupName\<close>: \<^verbatim>\<open>NotFoundException("Group '..' does not exist")\<close>;
  \<^item> \<open>TypeError\<close>: the runtime's error for a method call on \<^verbatim>\<open>undefined\<close>, which is what
    \<^verbatim>\<open>Map.get\<close> returns for a missing key;
  \<^item> \<open>SyntaxError s\<close>: the runtime's error for \<^verbatim>\<open>BigInt(s)\<close> on a string that is not an
    integer literal;
  \<^item> \<open>TreeDepthOutOfRange\<close>, \<open>TreeIsFull\<close>, \<open>LeafDoesNotExist\<close>: the failures of the Merkle
    tree primitive (a depth the class refuses, an insertion into a full tree, a proof for an
    index that is no leaf);
  \<^item> \<open>NameAlreadyExists name\<close>: the record store's rejection of a second record with the
    same name;
  \<^item> \<open>InviteError reason\<close>: a failure reported by the invite subsystem.
\<close>

datatype exn =
    MemberAlreadyExists string string
  | MemberDoesNotExist string string
  | GroupDoesNotExist string
  | TypeError
  | SyntaxError string
  | TreeDepthOutOfRange
  | TreeIsFull
  | LeafDoesNotExist
  | NameAlreadyExists string
  | InviteError string

text \<open>The lines written through \<^verbatim>\<open>Logger.log\<close> and \<^verbatim>\<open>Logger.error\<close>.\<close>

datatype log_entry =
    GroupsCached nat
  | GroupCreated string
  | MemberAdded string string
  | ContractGroupsUpdated nat
  | ContractUpdateFailed

subsection \<open>The Merkle tree primitive\<close>

text \<open>
  Modelled from the spec: the tree behind \<^verbatim>\<open>CachedGroup\<close> (the class \<^verbatim>\<open>Group\<close> of the package
  \<^verbatim>\<open>@semaphore-protocol/group\<close>) is not among the sources. Section 4.1 of the specification
  gives its contract: leaves are large integers, insertion order determines the leaf index,
  the capacity is \<open>2 ^ depth\<close> and an insertion beyond it fails; \<^verbatim>\<open>indexOf\<close> gives the index
  or "not found"; \<^verbatim>\<open>generateMerkleProof\<close> gives an inclusion proof; \<^verbatim>\<open>root\<close> is derived from
  the leaves. The tree is a binary Merkle tree of fixed depth over a two-argument hash; an
  absent node of level \<open>k\<close> counts as the \<open>k\<close>-th zero value, each the hash of two copies of
  the one below. The hash and the zero leaf of a group are parameters (see \<open>env\<close> below).
  Beyond that contract, the class \<^verbatim>\<open>Group\<close> accepts only depths from 16 to 32.
\<close>

fun indexOf :: "int list \<Rightarrow> int \<Rightarrow> int" where
  "indexOf [] v = - 1"
| "indexOf (x # xs) v =
     (if x = v then 0 else (let i = indexOf xs v in if i = - 1 then - 1 else i + 1))"

fun hash_level :: "(int \<Rightarrow> int \<Rightarrow> int) \<Rightarrow> int \<Rightarrow> int list \<Rightarrow> int list" where
  "hash_level H z [] = []"
| "hash_level H z [x] = [H x z]"
| "hash_level H z (x # y # xs) = H x y # hash_level H z xs"

fun merkle_root :: "(int \<Rightarrow> int \<Rightarrow> int) \<Rightarrow> nat \<Rightarrow> int \<Rightarrow> int list \<Rightarrow> int" where
  "merkle_root H 0 z xs = (case xs of [] \<Rightarrow> z | x # _ \<Rightarrow> x)"
| "merkle_root H (Suc d) z xs = merkle_root H d (H z z) (hash_level H z xs)"

definition sibling :: "int \<Rightarrow> int list \<Rightarrow> nat \<Rightarrow> int" where
  "sibling z xs i =
     (let j = (if even i then i + 1 else i - 1) in if j < length xs then xs ! j else z)"

fun merkle_path ::
  "(int \<Rightarrow> int \<Rightarrow> int) \<Rightarrow> nat \<Rightarrow> int \<Rightarrow> int list \<Rightarrow> nat \<Rightarrow> (nat \<times> int) list" where
  "merkle_path H 0 z xs i = []"
| "merkle_path H (Suc d) z xs i =
     (i mod 2, sibling z xs i) # merkle_path H d (H z z) (hash_level H z xs) (i div 2)"

fun recompute :: "(int \<Rightarrow> int \<Rightarrow> int) \<Rightarrow> int \<Rightarrow> (nat \<times> int) list \<Rightarrow> int" where
  "recompute H node [] = node"
| "recompute H node ((p, s) # ps) = recompute H (if p = 0 then H node s else H s node) ps"

subsection \<open>The environment\<close>

text \<open>
  What the service uses and the sources do not define is a parameter of every operation:
  \<^item> \<open>BigInt\<close>: the runtime's conversion of a string to an integer, \<open>None\<close> where it throws
    a \<^verbatim>\<open>SyntaxError\<close>;
  \<^item> \<open>id_hash\<close>: \<^verbatim>\<open>BigInt(id(name))\<close>, the integer of the hash of a group name (the function
    \<^verbatim>\<open>id\<close> of \<^verbatim>\<open>@ethersproject/hash\<close>, whose result always converts);
  \<^item> \<open>poseidon\<close>: the two-argument hash of the tree; \<open>zeroValue\<close>: the zero leaf of the tree
    of a group identifier;
  \<^item> \<open>redeemInvite\<close>: \<^verbatim>\<open>InvitesService.redeemInvite(inviteCode, groupName)\<close> on the state
    \<open>'i\<close> of the invite subsystem: the state it leaves, or the exception it throws.
\<close>

record 'i env =
  BigInt :: "string \<Rightarrow> int option"
  id_hash :: "string \<Rightarrow> int"
  poseidon :: "int \<Rightarrow> int \<Rightarrow> int"
  zeroValue :: "int \<Rightarrow> int"
  redeemInvite :: "'i \<Rightarrow> string \<Rightarrow> string \<Rightarrow> exn + 'i"

subsection \<open>CachedGroup\<close>

record cached_group =
  group_id :: int
  depth :: nat
  leaves :: "int list"

record merkle_proof =
  root :: int
  leaf :: int
  siblings :: "int list"
  pathIndices :: "nat list"

text \<open>
  A JavaScript class has one constructor and binds its arguments by position. The call
  \<^verbatim>\<open>new CachedGroup(groupId, group.treeDepth)\<close> of the service's constructor shows the
  parameters: the group identifier, then the depth. In \<^verbatim>\<open>new CachedGroup(treeDepth)\<close> the only
  argument is therefore the identifier and the depth is left out (\<open>None\<close>); the class then
  takes its default depth, 20. The constructor of the class throws when the depth is not
  between 16 and 32.
\<close>

definition DEFAULT_TREE_DEPTH :: nat where
  "DEFAULT_TREE_DEPTH = 20"

definition CachedGroup_new :: "int \<Rightarrow> nat option \<Rightarrow> exn + cached_group" where
  "CachedGroup_new gid treeDepth_opt =
     (let d = (case treeDepth_opt of None \<Rightarrow> DEFAULT_TREE_DEPTH | Some d \<Rightarrow> d)
      in if d < 16 \<or> 32 < d then Inl TreeDepthOutOfRange
         else Inr \<lparr>group_id = gid, depth = d, leaves = []\<rparr>)"

definition CachedGroup_root :: "'i env \<Rightarrow> cached_group \<Rightarrow> int" where
  "CachedGroup_root E g = merkle_root (poseidon E) (depth g) (zeroValue E (group_id g)) (leaves g)"

definition CachedGroup_indexOf :: "cached_group \<Rightarrow> int \<Rightarrow> int" where
  "CachedGroup_indexOf g v = indexOf (leaves g) v"

text \<open>\<^verbatim>\<open>addMember(member)\<close> converts its argument with \<^verbatim>\<open>BigInt\<close> and inserts the leaf.\<close>

definition CachedGroup_addMember :: "'i env \<Rightarrow> cached_group \<Rightarrow> string \<Rightarrow> exn + cached_group" where
  "CachedGroup_addMember E g member =
     (case BigInt E member of
        None \<Rightarrow> Inl (SyntaxError member)
      | Some v \<Rightarrow>
          if 2 ^ depth g \<le> length (leaves g) then Inl TreeIsFull
          else Inr (g\<lparr>leaves := leaves g @ [v]\<rparr>))"

fun CachedGroup_addMembers :: "'i env \<Rightarrow> cached_group \<Rightarrow> string list \<Rightarrow> exn + cached_group" where
  "CachedGroup_addMembers E g [] = Inr g"
| "CachedGroup_addMembers E g (m # ms) =
     (case CachedGroup_addMember E g m of
        Inl e \<Rightarrow> Inl e
      | Inr g' \<Rightarrow> CachedGroup_addMembers E g' ms)"

definition CachedGroup_generateMerkleProof :: "'i env \<Rightarrow> cached_group \<Rightarrow> int \<Rightarrow> exn + merkle_proof" where
  "CachedGroup_generateMerkleProof E g index =
     (if index < 0 \<or> int (length (leaves g)) \<le> index then Inl LeafDoesNotExist
      else
        (let path = merkle_path (poseidon E) (depth g) (zeroValue E (group_id g)) (leaves g) (nat index)
         in Inr \<lparr>root = CachedGroup_root E g,
                 leaf = leaves g ! nat index,
                 siblings = map snd path,
                 pathIndices = map fst path\<rparr>))"

text \<open>The root a verifier recomputes from the leaf, the siblings and the path of a proof.\<close>

definition recomputed_root :: "'i env \<Rightarrow> merkle_proof \<Rightarrow> int" where
  "recomputed_root E p = recompute (poseidon E) (leaf p) (zip (pathIndices p) (siblings p))"

subsection \<open>The record store\<close>

text \<open>
  Modelled from the spec: the entity \<^verbatim>\<open>Group\<close> and its repository are not among the sources.
  Section 6 of the specification gives the store's interface: \<^verbatim>\<open>find()\<close> returns all records,
  a record is found by its name, \<^verbatim>\<open>create\<close> builds a record from its fields, \<^verbatim>\<open>save\<close> persists
  one, and records are persisted with a uniqueness constraint on the name. The store is the
  list of its records. Saving a record made by \<^verbatim>\<open>create\<close> inserts it and is rejected when the
  name is taken (\<open>save_created\<close>); saving a record that was loaded from the store replaces the
  stored record of that name (\<open>save_loaded\<close>).
\<close>

record group =
  name :: string
  description :: string
  treeDepth :: nat
  tag :: string
  admin :: string
  members :: "string list"

definition findOneBy_name :: "group list \<Rightarrow> string \<Rightarrow> group option" where
  "findOneBy_name repo n = find (\<lambda>g. name g = n) repo"

definition save_created :: "group list \<Rightarrow> group \<Rightarrow> exn + group list" where
  "save_created repo g =
     (if name g \<in> set (map name repo) then Inl (NameAlreadyExists (name g)) else Inr (repo @ [g]))"

definition save_loaded :: "group list \<Rightarrow> group \<Rightarrow> group list" where
  "save_loaded repo g = map (\<lambda>h. if name h = name g then g else h) repo"

subsection \<open>The service\<close>

text \<open>
  \<open>zk_group\<close> is \<^verbatim>\<open>zkGroups.Group\<close>, an entry of the queue \<^verbatim>\<open>updatedGroups\<close>; \<open>transaction\<close> is
  what \<^verbatim>\<open>zkGroups.updateGroups\<close> resolves to. The state holds the service's two fields, its
  three collaborators (\<open>schedulerRegistry\<close> is the list \<^verbatim>\<open>getTimeouts()\<close> returns), the
  batches handed to \<^verbatim>\<open>zkGroups.updateGroups\<close> so far (\<open>contractCalls\<close>) and the log.
\<close>

record zk_group =
  id' :: int
  fingerprint :: int

record transaction =
  status :: bool
  events :: "string list"

record 'i state =
  groupRepository :: "group list"
  invitesService :: 'i
  schedulerRegistry :: "string list"
  cachedGroups :: "(string \<times> cached_group) list"
  updatedGroups :: "zk_group list"
  contractCalls :: "zk_group list list"
  logger :: "log_entry list"

definition getAllGroups :: "'i state \<Rightarrow> group list" where
  "getAllGroups s = groupRepository s"

definition getGroup :: "'i state \<Rightarrow> string \<Rightarrow> exn + group" where
  "getGroup s groupName =
     (case findOneBy_name (groupRepository s) groupName of
        None \<Rightarrow> Inl (GroupDoesNotExist groupName)
      | Some g \<Rightarrow> Inr g)"

text \<open>
  The constructor's loop over the stored groups. An exception leaves the loop with the
  map as built so far.
\<close>

fun cacheGroups ::
  "'i env \<Rightarrow> group list \<Rightarrow> (string \<times> cached_group) list \<Rightarrow> (exn + unit) \<times> (string \<times> cached_group) list" where
  "cacheGroups E [] cache = (Inr (), cache)"
| "cacheGroups E (g # gs) cache =
     (let groupId = id_hash E (name g)
      in case CachedGroup_new groupId (Some (treeDepth g)) of
           Inl e \<Rightarrow> (Inl e, cache)
         | Inr cachedGroup \<Rightarrow>
             (case CachedGroup_addMembers E cachedGroup (members g) of
                Inl e \<Rightarrow> (Inl e, cache)
              | Inr cachedGroup' \<Rightarrow>
                  cacheGroups E gs (AList.update (name g) cachedGroup' cache)))"

definition constructor :: "'i env \<Rightarrow> group list \<Rightarrow> 'i \<Rightarrow> string list \<Rightarrow> (exn + unit) \<times> 'i state" where
  "constructor E repo invites reg =
     (let s = \<lparr>groupRepository = repo, invitesService = invites, schedulerRegistry = reg,
               cachedGroups = [], updatedGroups = [], contractCalls = [], logger = []\<rparr>;
          groups = getAllGroups s
      in case cacheGroups E groups [] of
           (Inl e, cache) \<Rightarrow> (Inl e, s\<lparr>cachedGroups := cache\<rparr>)
         | (Inr u, cache) \<Rightarrow>
             (Inr (), s\<lparr>cachedGroups := cache, logger := [GroupsCached (length groups)]\<rparr>))"

text \<open>
  \<^verbatim>\<open>createGroup({ name, description, treeDepth, tag }, admin)\<close>: the fields of the DTO are the
  arguments, as the source destructures them.
\<close>

definition createGroup ::
  "'i env \<Rightarrow> string \<Rightarrow> string \<Rightarrow> nat \<Rightarrow> string \<Rightarrow> string \<Rightarrow> 'i state \<Rightarrow> (exn + group) \<times> 'i state" where
  "createGroup E name' description' treeDepth' tag' admin' s =
     (let group = \<lparr>name = name', description = description', treeDepth = treeDepth',
                   tag = tag', admin = admin', members = []\<rparr>
      in case save_created (groupRepository s) group of
           Inl e \<Rightarrow> (Inl e, s)
         | Inr repo \<Rightarrow>
             (let s1 = s\<lparr>groupRepository := repo\<rparr>
              in case CachedGroup_new (int treeDepth') None of
                   Inl e \<Rightarrow> (Inl e, s1)
                 | Inr cachedGroup \<Rightarrow>
                     (Inr group,
                      s1\<lparr>cachedGroups := AList.update name' cachedGroup (cachedGroups s1),
                         logger := logger s1 @ [GroupCreated name']\<rparr>)))"

text \<open>
  \<^verbatim>\<open>cachedGroup.indexOf(BigInt(member))\<close>: the method is looked up on the result of
  \<^verbatim>\<open>Map.get\<close> before the argument is evaluated, so a missing entry throws the \<^verbatim>\<open>TypeError\<close>
  before \<^verbatim>\<open>BigInt\<close> runs.
\<close>

definition isGroupMember :: "'i env \<Rightarrow> 'i state \<Rightarrow> string \<Rightarrow> string \<Rightarrow> exn + bool" where
  "isGroupMember E s groupName member =
     (case map_of (cachedGroups s) groupName of
        None \<Rightarrow> Inl TypeError
      | Some cachedGroup \<Rightarrow>
          (case BigInt E member of
             None \<Rightarrow> Inl (SyntaxError member)
           | Some v \<Rightarrow> Inr (CachedGroup_indexOf cachedGroup v \<noteq> - 1)))"

definition generateMerkleProof :: "'i env \<Rightarrow> 'i state \<Rightarrow> string \<Rightarrow> string \<Rightarrow> exn + merkle_proof" where
  "generateMerkleProof E s groupName member =
     (case isGroupMember E s groupName member of
        Inl e \<Rightarrow> Inl e
      | Inr is_member \<Rightarrow>
          if \<not> is_member then Inl (MemberDoesNotExist member groupName)
          else
            (case map_of (cachedGroups s) groupName of
               None \<Rightarrow> Inl TypeError
             | Some cachedGroup \<Rightarrow>
                 (case BigInt E member of
                    None \<Rightarrow> Inl (SyntaxError member)
                  | Some v \<Rightarrow>
                      (let memberIndex = CachedGroup_indexOf cachedGroup v
                       in CachedGroup_generateMerkleProof E cachedGroup memberIndex))))"

text \<open>
  \<^verbatim>\<open>updateContractGroups\<close> is an \<^verbatim>\<open>async\<close> method with one \<^verbatim>\<open>await\<close>. A call runs it up to the
  \<^verbatim>\<open>await\<close>: the test of the queue's length and the call of \<^verbatim>\<open>zkGroups.updateGroups\<close> on the
  queue (\<open>updateContractGroups_call\<close>; the batch recorded is what the queue holds when the
  call is made). The rest runs when the transaction has resolved, with the state as it is by
  then (\<open>updateContractGroups_resume\<close>): the queue is replaced by an empty one and the
  outcome is logged. When the promise is rejected instead, the rest never runs.
  \<open>updateContractGroups\<close> is a run with nothing in between.

  The decorator \<^verbatim>\<open>@Timeout(60 * 1000)\<close> on the method registers it with the scheduler, which
  calls it when the delay has passed. It does not change what a call of the method does:
  \<^verbatim>\<open>this.updateContractGroups()\<close> runs the body.
\<close>

definition updateContractGroups_call :: "'i state \<Rightarrow> 'i state" where
  "updateContractGroups_call s =
     (if length (updatedGroups s) > 0
      then s\<lparr>contractCalls := contractCalls s @ [updatedGroups s]\<rparr>
      else s)"

definition updateContractGroups_resume :: "transaction \<Rightarrow> 'i state \<Rightarrow> 'i state" where
  "updateContractGroups_resume tx s =
     (let s' = s\<lparr>updatedGroups := []\<rparr>
      in if status tx
         then s'\<lparr>logger := logger s' @ [ContractGroupsUpdated (length (events tx))]\<rparr>
         else s'\<lparr>logger := logger s' @ [ContractUpdateFailed]\<rparr>)"

definition updateContractGroups :: "transaction \<Rightarrow> 'i state \<Rightarrow> 'i state" where
  "updateContractGroups tx s =
     (if length (updatedGroups s) > 0
      then updateContractGroups_resume tx (updateContractGroups_call s)
      else s)"

text \<open>
  \<^verbatim>\<open>addMember({ inviteCode }, groupName, member)\<close>. The call of \<^verbatim>\<open>updateContractGroups\<close> at
  its end is not awaited: \<^verbatim>\<open>addMember\<close> returns once that call has reached its \<^verbatim>\<open>await\<close>.
\<close>

definition addMember ::
  "'i env \<Rightarrow> string \<Rightarrow> string \<Rightarrow> string \<Rightarrow> 'i state \<Rightarrow> (exn + group) \<times> 'i state" where
  "addMember E inviteCode groupName member s =
     (case isGroupMember E s groupName member of
        Inl e \<Rightarrow> (Inl e, s)
      | Inr is_member \<Rightarrow>
          if is_member then (Inl (MemberAlreadyExists member groupName), s)
          else
            (case redeemInvite E (invitesService s) inviteCode groupName of
               Inl e \<Rightarrow> (Inl e, s)
             | Inr invites \<Rightarrow>
                 (let s1 = s\<lparr>invitesService := invites\<rparr>
                  in case getGroup s1 groupName of
                       Inl e \<Rightarrow> (Inl e, s1)
                     | Inr loaded \<Rightarrow>
                         (let group = loaded\<lparr>members := members loaded @ [member]\<rparr>;
                              s2 = s1\<lparr>groupRepository := save_loaded (groupRepository s1) group\<rparr>
                          in case map_of (cachedGroups s2) groupName of
                               None \<Rightarrow> (Inl TypeError, s2)
                             | Some cachedGroup \<Rightarrow>
                                 (case CachedGroup_addMember E cachedGroup member of
                                    Inl e \<Rightarrow> (Inl e, s2)
                                  | Inr cachedGroup' \<Rightarrow>
                                      (let s3 = s2\<lparr>cachedGroups :=
                                                      AList.update groupName cachedGroup' (cachedGroups s2),
                                                    logger := logger s2 @ [MemberAdded member (name group)]\<rparr>;
                                           s4 = s3\<lparr>updatedGroups := updatedGroups s3 @
                                                      [\<lparr>id' = id_hash E (name group),
                                                        fingerprint = CachedGroup_root E cachedGroup'\<rparr>]\<rparr>;
                                           s5 = (if length (schedulerRegistry s4) = 0
                                                 then updateContractGroups_call s4 else s4)
                                       in (Inr group, s5)))))))"

subsection \<open>The mirror invariant\<close>






subsection \<open>An example environment\<close>

text \<open>
  A concrete environment for evaluating the operations: a string of decimal digits converts
  to its value (the empty string to 0) and no other string converts, a group name hashes to
  a number made of its length, the tree hashes with a small polynomial modulo 1009, and an
  invite is a pair of a code and a group name that is consumed by its redemption.
\<close>

definition digit_val :: "char \<Rightarrow> int option" where
  "digit_val c = map_of (zip ''0123456789'' [0, 1, 2, 3, 4, 5, 6, 7, 8, 9]) c"

fun decimal :: "int \<Rightarrow> string \<Rightarrow> int option" where
  "decimal acc [] = Some acc"
| "decimal acc (c # cs) =
     (case digit_val c of None \<Rightarrow> None | Some d \<Rightarrow> decimal (10 * acc + d) cs)"

definition redeem_example ::
  "(string \<times> string) list \<Rightarrow> string \<Rightarrow> string \<Rightarrow> exn + (string \<times> string) list" where
  "redeem_example invites code groupName =
     (if (code, groupName) \<in> set invites then Inr (remove1 (code, groupName) invites)
      else Inl (InviteError code))"

definition example_env :: "(string \<times> string) list env" where
  "example_env =
     \<lparr>BigInt = decimal 0,
      id_hash = (\<lambda>n. 1000 + int (length n)),
      poseidon = (\<lambda>a b. (3 * a + 5 * b + 1) mod 1009),
      zeroValue = (\<lambda>i. i + 7),
      redeemInvite = redeem_example\<rparr>"

text \<open>
  Example runs, for a given list \<open>reg\<close> of registered timeouts. \<open>example_s0\<close> is the service
  constructed over an empty store, with three invites for the group \<open>g\<close>; \<open>example_s1\<close> is the
  state after creating \<open>g\<close> with depth 16, \<open>example_s2\<close> after adding the member \<open>12\<close> to it
  and \<open>example_s3\<close> after adding the member \<open>13\<close> as well.
\<close>

definition example_invites :: "(string \<times> string) list" where
  "example_invites = [(''c1'', ''g''), (''c2'', ''g''), (''c3'', ''g'')]"

definition example_group :: "string list \<Rightarrow> group" where
  "example_group ms =
     \<lparr>name = ''g'', description = ''d'', treeDepth = 16, tag = ''t'', admin = ''alice'',
      members = ms\<rparr>"

definition example_s0 :: "string list \<Rightarrow> (string \<times> string) list state" where
  "example_s0 reg = snd (constructor example_env [] example_invites reg)"

definition example_s1 :: "string list \<Rightarrow> (string \<times> string) list state" where
  "example_s1 reg = snd (createGroup example_env ''g'' ''d'' 16 ''t'' ''alice'' (example_s0 reg))"

definition example_s2 :: "string list \<Rightarrow> (string \<times> string) list state" where
  "example_s2 reg = snd (addMember example_env ''c1'' ''g'' ''12'' (example_s1 reg))"

definition example_s3 :: "string list \<Rightarrow> (string \<times> string) list state" where
  "example_s3 reg = snd (addMember example_env ''c2'' ''g'' ''13'' (example_s2 reg))"

text \<open>
  A flush with an insertion in between, one timeout being registered: the timer fires in
  \<open>example_s2\<close> and the call of \<^verbatim>\<open>updateContractGroups\<close> reaches its \<^verbatim>\<open>await\<close> (\<open>example_t3\<close>);
  while the transaction is in flight the member \<open>13\<close> is added (\<open>example_t4\<close>); then the
  transaction resolves with success (\<open>example_t5\<close>).
\<close>

definition example_t3 :: "(string \<times> string) list state" where
  "example_t3 = updateContractGroups_call (example_s2 [''updateContractGroups''])"

definition example_t4 :: "(string \<times> string) list state" where
  "example_t4 = snd (addMember example_env ''c2'' ''g'' ''13'' example_t3)"

definition example_t5 :: "(string \<times> string) list state" where
  "example_t5 = updateContractGroups_resume \<lparr>status = True, events = [''GroupUpdated'']\<rparr> example_t4"

text \<open>
  \<open>example_restart\<close>: the service constructed anew over the store of \<open>example_s2\<close>.
\<close>

definition example_restart :: "(string \<times> string) list state" where
  "example_restart = snd (constructor example_env (groupRepository (example_s2 [])) example_invites [])"







subsection \<open>Facts about the tree primitive\<close>

lemma indexOf_ge: "- 1 \<le> indexOf xs v"
  by (induction xs) (auto simp: Let_def)

lemma indexOf_absent: "indexOf xs v = - 1 \<longleftrightarrow> v \<notin> set xs"
proof (induction xs)
  case Nil
  show ?case by simp
next
  case (Cons x xs)
  have "- 1 \<le> indexOf xs v" by (rule indexOf_ge)
  with Cons show ?case by (auto simp: Let_def)
qed

lemma indexOf_present:
  "v \<in> set xs \<Longrightarrow> 0 \<le> indexOf xs v \<and> nat (indexOf xs v) < length xs \<and> xs ! nat (indexOf xs v) = v"
proof (induction xs)
  case Nil
  then show ?case by simp
next
  case (Cons x xs)
  show ?case
  proof (cases "x = v")
    case True
    then show ?thesis by simp
  next
    case False
    with Cons.prems have m: "v \<in> set xs" by simp
    then have ne: "indexOf xs v \<noteq> - 1" by (simp add: indexOf_absent)
    from Cons.IH [OF m] have ih: "0 \<le> indexOf xs v" "nat (indexOf xs v) < length xs"
      "xs ! nat (indexOf xs v) = v" by simp_all
    have "nat (indexOf xs v + 1) = Suc (nat (indexOf xs v))" using ih(1) by simp
    with False ne ih show ?thesis by (simp add: Let_def)
  qed
qed

lemma length_hash_level: "length (hash_level H z xs) = (length xs + 1) div 2"
  by (induction H z xs rule: hash_level.induct) auto

lemma hash_level_nth:
  "i < length xs \<Longrightarrow>
   hash_level H z xs ! (i div 2) =
     (if even i then H (xs ! i) (sibling z xs i) else H (sibling z xs i) (xs ! i))"
proof (induction H z xs arbitrary: i rule: hash_level.induct)
  case (1 H z)
  then show ?case by simp
next
  case (2 H z x)
  then show ?case by (simp add: sibling_def)
next
  case (3 H z x y xs)
  show ?case
  proof (cases "i < 2")
    case True
    then have "i = 0 \<or> i = 1" by arith
    then show ?thesis by (auto simp: sibling_def)
  next
    case False
    then have "2 \<le> i" by simp
    then obtain j where j: "i = Suc (Suc j)" by (cases i; cases "i - 1") auto
    with "3.prems" have lt: "j < length xs" by simp
    have d: "i div 2 = Suc (j div 2)" using j by simp
    have s: "sibling z (x # y # xs) i = sibling z xs j"
      using j by (auto simp: sibling_def Let_def elim: oddE)
    from "3.IH" [OF lt] show ?thesis using j d s by simp
  qed
qed

lemma recompute_merkle_path:
  "i < length xs \<Longrightarrow> length xs \<le> 2 ^ d \<Longrightarrow>
   recompute H (xs ! i) (merkle_path H d z xs i) = merkle_root H d z xs"
proof (induction d arbitrary: z xs i)
  case 0
  then have "length xs = 1" "i = 0" by simp_all
  then show ?case by (cases xs) simp_all
next
  case (Suc d)
  have l: "i div 2 < length (hash_level H z xs)"
    using Suc.prems(1) by (simp add: length_hash_level)
  have b: "length (hash_level H z xs) \<le> 2 ^ d"
    using Suc.prems(2) by (simp add: length_hash_level)
  have e: "(i mod 2 = 0) = even i" by presburger
  show ?case
    using Suc.IH [OF l b, of "H z z"] hash_level_nth [OF Suc.prems(1), of H z]
    by (simp add: e)
qed

lemma CachedGroup_proof_ok:
  assumes "v \<in> set (leaves t)" and "length (leaves t) \<le> 2 ^ depth t"
  shows "\<exists>p. CachedGroup_generateMerkleProof E t (CachedGroup_indexOf t v) = Inr p \<and>
             recomputed_root E p = CachedGroup_root E t \<and> root p = CachedGroup_root E t \<and>
             leaf p = v"
proof -
  let ?i = "indexOf (leaves t) v"
  from indexOf_present [OF assms(1)]
  have i: "0 \<le> ?i" "nat ?i < length (leaves t)" "leaves t ! nat ?i = v" by simp_all
  have r: "\<not> (?i < 0 \<or> int (length (leaves t)) \<le> ?i)" using i(1,2) by linarith
  let ?path = "merkle_path (poseidon E) (depth t) (zeroValue E (group_id t)) (leaves t) (nat ?i)"
  have z: "zip (map fst ?path) (map snd ?path) = ?path" by (simp add: zip_map_fst_snd)
  have "recompute (poseidon E) (leaves t ! nat ?i) ?path =
        merkle_root (poseidon E) (depth t) (zeroValue E (group_id t)) (leaves t)"
    by (rule recompute_merkle_path [OF i(2) assms(2)])
  then show ?thesis
    using r i(3)
    by (simp add: CachedGroup_generateMerkleProof_def CachedGroup_indexOf_def Let_def
        recomputed_root_def CachedGroup_root_def z)
qed

subsection \<open>Facts about the service\<close>

lemma isGroupMember_eq:
  "map_of (cachedGroups s) g = Some t \<Longrightarrow> BigInt E m = Some v \<Longrightarrow>
   isGroupMember E s g m = Inr (v \<in> set (leaves t))"
  by (simp add: isGroupMember_def CachedGroup_indexOf_def indexOf_absent)

lemma isGroupMember_Inr:
  "isGroupMember E s g m = Inr b \<Longrightarrow>
   \<exists>t v. map_of (cachedGroups s) g = Some t \<and> BigInt E m = Some v \<and> b = (v \<in> set (leaves t))"
  by (auto simp: isGroupMember_def CachedGroup_indexOf_def indexOf_absent split: option.splits)

lemma findOneBy_name_Some:
  "findOneBy_name repo n = Some g \<Longrightarrow> name g = n \<and> g \<in> set repo"
  by (auto simp: findOneBy_name_def find_Some_iff)

text \<open>The state a successful \<open>addMember\<close> leaves, field by field.\<close>

lemma addMember_success:
  assumes "map_of (cachedGroups s) g = Some t" and "BigInt E m = Some v"
    and "v \<notin> set (leaves t)"
    and "redeemInvite E (invitesService s) code g = Inr invites"
    and "findOneBy_name (groupRepository s) g = Some loaded"
    and "length (leaves t) < 2 ^ depth t"
  shows "addMember E code g m s =
    (Inr (loaded\<lparr>members := members loaded @ [m]\<rparr>),
     s\<lparr>invitesService := invites,
       groupRepository := save_loaded (groupRepository s) (loaded\<lparr>members := members loaded @ [m]\<rparr>),
       cachedGroups := AList.update g (t\<lparr>leaves := leaves t @ [v]\<rparr>) (cachedGroups s),
       logger := logger s @ [MemberAdded m g],
       updatedGroups := updatedGroups s @
         [\<lparr>id' = id_hash E g, fingerprint = CachedGroup_root E (t\<lparr>leaves := leaves t @ [v]\<rparr>)\<rparr>],
       contractCalls :=
         (if schedulerRegistry s = [] then contractCalls s @
            [updatedGroups s @
              [\<lparr>id' = id_hash E g, fingerprint = CachedGroup_root E (t\<lparr>leaves := leaves t @ [v]\<rparr>)\<rparr>]]
          else contractCalls s)\<rparr>)"
proof -
  have n: "name loaded = g" using assms(5) by (simp add: findOneBy_name_Some)
  have i: "isGroupMember E s g m = Inr False" using assms(1-3) by (simp add: isGroupMember_eq)
  have a: "CachedGroup_addMember E t m = Inr (t\<lparr>leaves := leaves t @ [v]\<rparr>)"
    using assms(2,6) by (simp add: CachedGroup_addMember_def)
  show ?thesis
    using assms(1,4,5) n
    by (simp add: addMember_def i a getGroup_def Let_def updateContractGroups_call_def)
qed

text \<open>What a successful \<open>addMember\<close> has found on its way.\<close>

lemma addMember_Inr:
  assumes "addMember E code g m s = (Inr r, s')"
  shows "\<exists>t v invites loaded.
     map_of (cachedGroups s) g = Some t \<and> BigInt E m = Some v \<and> v \<notin> set (leaves t) \<and>
     redeemInvite E (invitesService s) code g = Inr invites \<and>
     findOneBy_name (groupRepository s) g = Some loaded \<and>
     length (leaves t) < 2 ^ depth t"
proof -
  from assms obtain b where b: "isGroupMember E s g m = Inr b"
    by (cases "isGroupMember E s g m") (auto simp: addMember_def)
  from assms b have nb: "\<not> b" by (auto simp: addMember_def split: if_splits)
  from isGroupMember_Inr [OF b] nb obtain t v where
    tv: "map_of (cachedGroups s) g = Some t" "BigInt E m = Some v" "v \<notin> set (leaves t)"
    by auto
  from assms b nb obtain invites where inv: "redeemInvite E (invitesService s) code g = Inr invites"
    by (cases "redeemInvite E (invitesService s) code g") (auto simp: addMember_def)
  from assms b nb inv obtain loaded where l: "findOneBy_name (groupRepository s) g = Some loaded"
    by (cases "findOneBy_name (groupRepository s) g") (auto simp: addMember_def getGroup_def Let_def)
  from assms b nb inv l tv have "length (leaves t) < 2 ^ depth t"
    by (auto simp: addMember_def getGroup_def Let_def CachedGroup_addMember_def split: if_splits)
  with tv inv l show ?thesis by blast
qed


text \<open>The constructor's loop: names it does not meet keep their entry.\<close>

lemma cacheGroups_other:
  "cacheGroups E gs c = (Inr u, c') \<Longrightarrow> n \<notin> name ` set gs \<Longrightarrow> map_of c' n = map_of c n"
proof (induction gs arbitrary: c)
  case Nil
  then show ?case by simp
next
  case (Cons g gs)
  from Cons.prems(1) obtain t where
    r: "cacheGroups E gs (AList.update (name g) t c) = (Inr u, c')"
    by (auto simp: Let_def split: sum.splits)
  from Cons.prems(2) have "n \<notin> name ` set gs" "n \<noteq> name g" by auto
  with Cons.IH [OF r] show ?case by (simp add: update_conv')
qed


lemma CachedGroup_new_default:
  "CachedGroup_new gid None = Inr \<lparr>group_id = gid, depth = 20, leaves = []\<rparr>"
  by (simp add: CachedGroup_new_def DEFAULT_TREE_DEPTH_def)

text \<open>
  Bootstrap: over a store with distinct names, the tree cached for a group is the tree
  obtained from a fresh one (seeded with the hash of the name, of the stored depth) by
  inserting the stored members in order.
\<close>

lemma cacheGroups_lookup:
  "distinct (map name gs) \<Longrightarrow> cacheGroups E gs c = (Inr u, c') \<Longrightarrow> g \<in> set gs \<Longrightarrow>
   \<exists>t0 t. CachedGroup_new (id_hash E (name g)) (Some (treeDepth g)) = Inr t0 \<and>
       CachedGroup_addMembers E t0 (members g) = Inr t \<and>
       map_of c' (name g) = Some t"
proof (induction gs arbitrary: c)
  case Nil
  then show ?case by simp
next
  case (Cons h gs)
  from Cons.prems(2) obtain t0 t where
    t0: "CachedGroup_new (id_hash E (name h)) (Some (treeDepth h)) = Inr t0"
    and t: "CachedGroup_addMembers E t0 (members h) = Inr t"
    and r: "cacheGroups E gs (AList.update (name h) t c) = (Inr u, c')"
    by (auto simp: Let_def split: sum.splits)
  from Cons.prems(1) have d: "distinct (map name gs)" and nh: "name h \<notin> name ` set gs" by auto
  show ?case
  proof (cases "g = h")
    case True
    from cacheGroups_other [OF r nh] have "map_of c' (name h) = Some t" by (simp add: update_conv')
    with t0 t True show ?thesis by simp
  next
    case False
    with Cons.prems(3) have "g \<in> set gs" by simp
    from Cons.IH [OF d r this] show ?thesis .
  qed
qed


text \<open>
  Bootstrap fidelity: after a successful construction over a store with distinct names, the
  tree cached under the name of a stored group is the fresh tree of the group's depth, seeded
  with the hash of its name, with the group's members inserted in stored order; so its root
  is the root of that tree.
\<close>

lemma constructor_lookup:
  assumes "distinct (map name repo)" and "constructor E repo invites reg = (Inr u, s)"
    and "g \<in> set repo"
  shows "\<exists>t0 t. CachedGroup_new (id_hash E (name g)) (Some (treeDepth g)) = Inr t0 \<and>
             CachedGroup_addMembers E t0 (members g) = Inr t \<and>
             map_of (cachedGroups s) (name g) = Some t"
proof -
  from assms(2) obtain c where
    c: "cacheGroups E repo [] = (Inr (), c)" and s: "cachedGroups s = c"
    by (auto simp: constructor_def getAllGroups_def Let_def split: prod.splits sum.splits)
  from cacheGroups_lookup [OF assms(1) c assms(3)] s show ?thesis by simp
qed










text \<open>A group name with no cached tree: both queries throw the \<open>TypeError\<close>.\<close>

lemma unknown_group_TypeError:
  assumes "map_of (cachedGroups s) groupName = None"
  shows "isGroupMember E s groupName member = Inl TypeError \<and>
         generateMerkleProof E s groupName member = Inl TypeError"
  using assms by (simp add: isGroupMember_def generateMerkleProof_def)



text \<open>
  \<open>addMember\<close> never writes the scheduler registry; when it succeeds with no timeout
  registered, the queue it leaves has been handed over as a batch.
\<close>

lemma addMember_schedulerRegistry:
  "schedulerRegistry (snd (addMember E code g m s)) = schedulerRegistry s"
  by (simp add: addMember_def getGroup_def Let_def updateContractGroups_call_def
      split: sum.splits option.splits)

lemma addMember_no_timeout:
  assumes "addMember E code g m s = (Inr r, s')" and "schedulerRegistry s = []"
  shows "contractCalls s' = contractCalls s @ [updatedGroups s']"
proof -
  from addMember_Inr [OF assms(1)] obtain t v invites loaded where
    h: "map_of (cachedGroups s) g = Some t" "BigInt E m = Some v" "v \<notin> set (leaves t)"
       "redeemInvite E (invitesService s) code g = Inr invites"
       "findOneBy_name (groupRepository s) g = Some loaded"
       "length (leaves t) < 2 ^ depth t"
    by blast
  from addMember_success [OF h] assms show ?thesis by auto
qed

text \<open>The example states, evaluated.\<close>

lemma example_s0_eq:
  "example_s0 reg = \<lparr>groupRepository = [], invitesService = example_invites,
     schedulerRegistry = reg, cachedGroups = [], updatedGroups = [], contractCalls = [],
     logger = [GroupsCached 0]\<rparr>"
  by (simp add: example_s0_def constructor_def getAllGroups_def Let_def)

lemma example_s1_eq:
  "example_s1 reg = \<lparr>groupRepository = [example_group []],
     invitesService = example_invites, schedulerRegistry = reg,
     cachedGroups = [(''g'', \<lparr>group_id = 16, depth = 20, leaves = []\<rparr>)],
     updatedGroups = [], contractCalls = [],
     logger = [GroupsCached 0, GroupCreated ''g'']\<rparr>"
  by (simp add: example_s1_def example_s0_eq createGroup_def save_created_def Let_def
      CachedGroup_new_default example_group_def)

lemma example_BigInt:
  "BigInt example_env ''12'' = Some 12" "BigInt example_env ''13'' = Some 13"
  "BigInt example_env ''3'' = Some 3"
  by (simp_all add: example_env_def digit_val_def)

lemma example_id_hash: "id_hash example_env ''g'' = 1001"
  by (simp add: example_env_def)

lemma example_root_12: "CachedGroup_root example_env \<lparr>group_id = 16, depth = 20, leaves = [12]\<rparr> = 500"
  by code_simp

lemma example_root_12_13:
  "CachedGroup_root example_env \<lparr>group_id = 16, depth = 20, leaves = [12, 13]\<rparr> = 639"
  by code_simp

lemma example_root_restart:
  "CachedGroup_root example_env \<lparr>group_id = 1001, depth = 16, leaves = [12]\<rparr> = 924"
  by code_simp

lemma example_first_add:
  "addMember example_env ''c1'' ''g'' ''12'' (example_s1 reg) =
     (Inr (example_group [''12'']),
      \<lparr>groupRepository = [example_group [''12'']],
       invitesService = [(''c2'', ''g''), (''c3'', ''g'')], schedulerRegistry = reg,
       cachedGroups = [(''g'', \<lparr>group_id = 16, depth = 20, leaves = [12]\<rparr>)],
       updatedGroups = [\<lparr>id' = 1001, fingerprint = 500\<rparr>],
       contractCalls = (if reg = [] then [[\<lparr>id' = 1001, fingerprint = 500\<rparr>]] else []),
       logger = [GroupsCached 0, GroupCreated ''g'', MemberAdded ''12'' ''g'']\<rparr>)"
proof -
  have t: "map_of (cachedGroups (example_s1 reg)) ''g'' =
           Some \<lparr>group_id = 16, depth = 20, leaves = []\<rparr>"
    by (simp add: example_s1_eq)
  have n: "12 \<notin> set (leaves \<lparr>group_id = 16, depth = 20, leaves = []\<rparr>)" by simp
  have r: "redeemInvite example_env (invitesService (example_s1 reg)) ''c1'' ''g'' =
           Inr [(''c2'', ''g''), (''c3'', ''g'')]"
    by (simp add: example_s1_eq example_env_def redeem_example_def example_invites_def)
  have l: "findOneBy_name (groupRepository (example_s1 reg)) ''g'' = Some (example_group [])"
    by (simp add: example_s1_eq findOneBy_name_def example_group_def)
  have c: "length (leaves \<lparr>group_id = 16, depth = 20, leaves = []\<rparr>) <
           2 ^ depth \<lparr>group_id = 16, depth = 20, leaves = []\<rparr>" by simp
  show ?thesis
    unfolding addMember_success [OF t example_BigInt(1) n r l c]
    by (simp add: example_s1_eq example_group_def save_loaded_def example_id_hash example_root_12)
qed

lemma example_s2_eq:
  "example_s2 reg =
      \<lparr>groupRepository = [example_group [''12'']],
       invitesService = [(''c2'', ''g''), (''c3'', ''g'')], schedulerRegistry = reg,
       cachedGroups = [(''g'', \<lparr>group_id = 16, depth = 20, leaves = [12]\<rparr>)],
       updatedGroups = [\<lparr>id' = 1001, fingerprint = 500\<rparr>],
       contractCalls = (if reg = [] then [[\<lparr>id' = 1001, fingerprint = 500\<rparr>]] else []),
       logger = [GroupsCached 0, GroupCreated ''g'', MemberAdded ''12'' ''g'']\<rparr>"
  by (simp add: example_s2_def example_first_add)

text \<open>
  Adding the member \<open>13\<close> to a state whose store, invites and cache are those of
  \<open>example_s2\<close>, whatever its queue and the batches handed over so far.
\<close>

lemma example_second_add:
  assumes "groupRepository s = [example_group [''12'']]"
    and "invitesService s = [(''c2'', ''g''), (''c3'', ''g'')]"
    and "cachedGroups s = [(''g'', \<lparr>group_id = 16, depth = 20, leaves = [12]\<rparr>)]"
  shows "addMember example_env ''c2'' ''g'' ''13'' s =
     (Inr (example_group [''12'', ''13'']),
      s\<lparr>invitesService := [(''c3'', ''g'')],
        groupRepository := [example_group [''12'', ''13'']],
        cachedGroups := [(''g'', \<lparr>group_id = 16, depth = 20, leaves = [12, 13]\<rparr>)],
        logger := logger s @ [MemberAdded ''13'' ''g''],
        updatedGroups := updatedGroups s @ [\<lparr>id' = 1001, fingerprint = 639\<rparr>],
        contractCalls :=
          (if schedulerRegistry s = []
           then contractCalls s @ [updatedGroups s @ [\<lparr>id' = 1001, fingerprint = 639\<rparr>]]
           else contractCalls s)\<rparr>)"
proof -
  have t: "map_of (cachedGroups s) ''g'' = Some \<lparr>group_id = 16, depth = 20, leaves = [12]\<rparr>"
    by (simp add: assms(3))
  have n: "13 \<notin> set (leaves \<lparr>group_id = 16, depth = 20, leaves = [12]\<rparr>)" by simp
  have r: "redeemInvite example_env (invitesService s) ''c2'' ''g'' = Inr [(''c3'', ''g'')]"
    by (simp add: assms(2) example_env_def redeem_example_def)
  have l: "findOneBy_name (groupRepository s) ''g'' = Some (example_group [''12''])"
    by (simp add: assms(1) findOneBy_name_def example_group_def)
  have c: "length (leaves \<lparr>group_id = 16, depth = 20, leaves = [12]\<rparr>) <
           2 ^ depth \<lparr>group_id = 16, depth = 20, leaves = [12]\<rparr>" by simp
  show ?thesis
    unfolding addMember_success [OF t example_BigInt(2) n r l c]
    by (simp add: assms example_group_def save_loaded_def example_id_hash example_root_12_13)
qed

lemma example_s3_eq:
  "example_s3 [] =
      \<lparr>groupRepository = [example_group [''12'', ''13'']],
       invitesService = [(''c3'', ''g'')], schedulerRegistry = [],
       cachedGroups = [(''g'', \<lparr>group_id = 16, depth = 20, leaves = [12, 13]\<rparr>)],
       updatedGroups = [\<lparr>id' = 1001, fingerprint = 500\<rparr>, \<lparr>id' = 1001, fingerprint = 639\<rparr>],
       contractCalls =
         [[\<lparr>id' = 1001, fingerprint = 500\<rparr>],
          [\<lparr>id' = 1001, fingerprint = 500\<rparr>, \<lparr>id' = 1001, fingerprint = 639\<rparr>]],
       logger = [GroupsCached 0, GroupCreated ''g'', MemberAdded ''12'' ''g'',
                 MemberAdded ''13'' ''g'']\<rparr>"
  by (simp add: example_s3_def example_second_add example_s2_eq)

lemma example_t3_eq:
  "example_t3 =
      \<lparr>groupRepository = [example_group [''12'']],
       invitesService = [(''c2'', ''g''), (''c3'', ''g'')],
       schedulerRegistry = [''updateContractGroups''],
       cachedGroups = [(''g'', \<lparr>group_id = 16, depth = 20, leaves = [12]\<rparr>)],
       updatedGroups = [\<lparr>id' = 1001, fingerprint = 500\<rparr>],
       contractCalls = [[\<lparr>id' = 1001, fingerprint = 500\<rparr>]],
       logger = [GroupsCached 0, GroupCreated ''g'', MemberAdded ''12'' ''g'']\<rparr>"
  by (simp add: example_t3_def example_s2_eq updateContractGroups_call_def)

lemma example_t4_eq:
  "example_t4 =
      \<lparr>groupRepository = [example_group [''12'', ''13'']],
       invitesService = [(''c3'', ''g'')],
       schedulerRegistry = [''updateContractGroups''],
       cachedGroups = [(''g'', \<lparr>group_id = 16, depth = 20, leaves = [12, 13]\<rparr>)],
       updatedGroups = [\<lparr>id' = 1001, fingerprint = 500\<rparr>, \<lparr>id' = 1001, fingerprint = 639\<rparr>],
       contractCalls = [[\<lparr>id' = 1001, fingerprint = 500\<rparr>]],
       logger = [GroupsCached 0, GroupCreated ''g'', MemberAdded ''12'' ''g'',
                 MemberAdded ''13'' ''g'']\<rparr>"
  by (simp add: example_t4_def example_second_add example_t3_eq)

lemma example_t5_eq:
  "example_t5 =
      \<lparr>groupRepository = [example_group [''12'', ''13'']],
       invitesService = [(''c3'', ''g'')],
       schedulerRegistry = [''updateContractGroups''],
       cachedGroups = [(''g'', \<lparr>group_id = 16, depth = 20, leaves = [12, 13]\<rparr>)],
       updatedGroups = [],
       contractCalls = [[\<lparr>id' = 1001, fingerprint = 500\<rparr>]],
       logger = [GroupsCached 0, GroupCreated ''g'', MemberAdded ''12'' ''g'',
                 MemberAdded ''13'' ''g'', ContractGroupsUpdated 1]\<rparr>"
  by (simp add: example_t5_def example_t4_eq updateContractGroups_resume_def)

lemma example_restart_eq:
  "example_restart =
      \<lparr>groupRepository = [example_group [''12'']],
       invitesService = example_invites, schedulerRegistry = [],
       cachedGroups = [(''g'', \<lparr>group_id = 1001, depth = 16, leaves = [12]\<rparr>)],
       updatedGroups = [], contractCalls = [], logger = [GroupsCached 1]\<rparr>"
  by (simp add: example_restart_def example_s2_eq constructor_def getAllGroups_def Let_def
      example_group_def example_id_hash CachedGroup_new_def CachedGroup_addMember_def
      example_BigInt)











section \<open>The claims\<close>




text \<open>
  C2. Invite-failure atomicity: when the membership check of \<open>addMember\<close> has passed and the
  redemption of the invite fails with an exception \<open>e\<close>, the call throws \<open>e\<close> and returns the
  state it was given: the stored member lists, the cached trees (hence every root), the
  queue of pending updates and everything else are as before the call. The redemption comes
  before every write to the store, the cache or the queue.
\<close>

theorem C2_invite_failure_leaves_state:
  assumes "isGroupMember E s groupName member = Inr False"
    and "redeemInvite E (invitesService s) inviteCode groupName = Inl e"
  shows "addMember E inviteCode groupName member s = (Inl e, s)"
  using assms by (simp add: addMember_def)

theorem C2_invite_failure_witness:
  "addMember example_env ''nocode'' ''g'' ''12'' (example_s1 []) =
     (Inl (InviteError ''nocode''), example_s1 [])"
proof -
  have m: "isGroupMember example_env (example_s1 []) ''g'' ''12'' = Inr False"
    by (simp add: example_s1_eq isGroupMember_def example_BigInt CachedGroup_indexOf_def)
  have r: "redeemInvite example_env (invitesService (example_s1 [])) ''nocode'' ''g'' =
           Inl (InviteError ''nocode'')"
    by (simp add: example_s1_eq example_env_def redeem_example_def example_invites_def)
  show ?thesis by (rule C2_invite_failure_leaves_state [OF m r])
qed

text \<open>
  C3. Duplicate-add rejection. Take a group \<open>g\<close> with a cached tree \<open>t\<close> that is not full and
  a stored record, a member \<open>m\<close> that converts to an integer which is not yet a leaf of \<open>t\<close>,
  and an invite code that the invite subsystem redeems for \<open>g\<close>. Then the first call of
  \<open>addMember\<close> for \<open>g\<close> and \<open>m\<close> succeeds, and the next call for \<open>g\<close> and \<open>m\<close>, whatever its
  invite code, throws the "already exists" exception and returns the state unchanged: the
  stored member list, the cached tree and the queue of pending updates are as the first
  call left them. The membership check comes first and nothing is written before it.
\<close>

theorem C3_second_add_rejected:
  assumes "map_of (cachedGroups s) g = Some t" and "BigInt E m = Some v"
    and "v \<notin> set (leaves t)"
    and "redeemInvite E (invitesService s) code1 g = Inr invites"
    and "findOneBy_name (groupRepository s) g = Some loaded"
    and "length (leaves t) < 2 ^ depth t"
  shows "\<exists>r s1. addMember E code1 g m s = (Inr r, s1) \<and>
                addMember E code2 g m s1 = (Inl (MemberAlreadyExists m g), s1)"
proof -
  from addMember_success [OF assms] obtain r s1 where
    first: "addMember E code1 g m s = (Inr r, s1)" and
    c: "cachedGroups s1 = AList.update g (t\<lparr>leaves := leaves t @ [v]\<rparr>) (cachedGroups s)"
    by simp
  have "map_of (cachedGroups s1) g = Some (t\<lparr>leaves := leaves t @ [v]\<rparr>)"
    by (simp add: c update_conv')
  from isGroupMember_eq [OF this assms(2)]
  have "isGroupMember E s1 g m = Inr True" by simp
  then have "addMember E code2 g m s1 = (Inl (MemberAlreadyExists m g), s1)"
    by (simp add: addMember_def)
  with first show ?thesis by blast
qed

theorem C3_second_add_witness:
  "addMember example_env ''c1'' ''g'' ''12'' (example_s1 []) =
     (Inr (example_group [''12'']), example_s2 []) \<and>
   addMember example_env ''c2'' ''g'' ''12'' (example_s2 []) =
     (Inl (MemberAlreadyExists ''12'' ''g''), example_s2 [])"
proof -
  have t: "map_of (cachedGroups (example_s1 [])) ''g'' =
           Some \<lparr>group_id = 16, depth = 20, leaves = []\<rparr>"
    by (simp add: example_s1_eq)
  have n: "12 \<notin> set (leaves \<lparr>group_id = 16, depth = 20, leaves = []\<rparr>)" by simp
  have r: "redeemInvite example_env (invitesService (example_s1 [])) ''c1'' ''g'' =
           Inr [(''c2'', ''g''), (''c3'', ''g'')]"
    by (simp add: example_s1_eq example_env_def redeem_example_def example_invites_def)
  have l: "findOneBy_name (groupRepository (example_s1 [])) ''g'' = Some (example_group [])"
    by (simp add: example_s1_eq findOneBy_name_def example_group_def)
  have c: "length (leaves \<lparr>group_id = 16, depth = 20, leaves = []\<rparr>) <
           2 ^ depth \<lparr>group_id = 16, depth = 20, leaves = []\<rparr>" by simp
  from C3_second_add_rejected [OF t example_BigInt(1) n r l c, of "''c2''"]
  obtain r1 s1 where
    first: "addMember example_env ''c1'' ''g'' ''12'' (example_s1 []) = (Inr r1, s1)" and
    second: "addMember example_env ''c2'' ''g'' ''12'' s1 = (Inl (MemberAlreadyExists ''12'' ''g''), s1)"
    by blast
  have e: "addMember example_env ''c1'' ''g'' ''12'' (example_s1 []) =
     (Inr (example_group [''12'']), example_s2 [])"
    by (simp add: example_first_add example_s2_eq)
  from first e have "s1 = example_s2 []" by simp
  with second e show ?thesis by simp
qed

text \<open>
  C4. Post-add observability: when \<open>addMember\<close> for the group \<open>g\<close> and the member \<open>m\<close> has
  succeeded, \<open>isGroupMember\<close> answers true for them in the state reached,
  \<open>generateMerkleProof\<close> returns a proof (it does not throw) whose leaf is the member's
  integer, whose recomputed root is the root of the cached tree of \<open>g\<close> and whose \<open>root\<close> field
  is that root too, and the queue of pending updates is the queue of before followed by the
  entry made of the hash of the name \<open>g\<close> and that root.
\<close>

theorem C4_member_observable_after_add:
  assumes "addMember E code g m s = (Inr r, s')"
  shows "isGroupMember E s' g m = Inr True \<and>
    (\<exists>p t' v. generateMerkleProof E s' g m = Inr p \<and>
       map_of (cachedGroups s') g = Some t' \<and> BigInt E m = Some v \<and> leaf p = v \<and>
       recomputed_root E p = CachedGroup_root E t' \<and> root p = CachedGroup_root E t' \<and>
       updatedGroups s' = updatedGroups s @
         [\<lparr>id' = id_hash E g, fingerprint = CachedGroup_root E t'\<rparr>])"
proof -
  from addMember_Inr [OF assms] obtain t v invites loaded where
    h: "map_of (cachedGroups s) g = Some t" "BigInt E m = Some v" "v \<notin> set (leaves t)"
       "redeemInvite E (invitesService s) code g = Inr invites"
       "findOneBy_name (groupRepository s) g = Some loaded"
       "length (leaves t) < 2 ^ depth t"
    by blast
  let ?t = "t\<lparr>leaves := leaves t @ [v]\<rparr>"
  from addMember_success [OF h] assms
  have c: "cachedGroups s' = AList.update g ?t (cachedGroups s)"
    and q: "updatedGroups s' = updatedGroups s @
         [\<lparr>id' = id_hash E g, fingerprint = CachedGroup_root E ?t\<rparr>]"
    by auto
  have t': "map_of (cachedGroups s') g = Some ?t" by (simp add: c update_conv')
  from isGroupMember_eq [OF t' h(2)] have im: "isGroupMember E s' g m = Inr True" by simp
  have vin: "v \<in> set (leaves ?t)" by simp
  have cap: "length (leaves ?t) \<le> 2 ^ depth ?t" using h(6) by simp
  from CachedGroup_proof_ok [OF vin cap, of E] obtain p where
    p: "CachedGroup_generateMerkleProof E ?t (CachedGroup_indexOf ?t v) = Inr p"
       "recomputed_root E p = CachedGroup_root E ?t" "root p = CachedGroup_root E ?t" "leaf p = v"
    by blast
  have g: "generateMerkleProof E s' g m = Inr p"
    using p(1) by (simp add: generateMerkleProof_def im t' h(2) Let_def)
  from im g t' h(2) p(2,3,4) q show ?thesis by blast
qed

theorem C4_member_observable_witness:
  "isGroupMember example_env (example_s2 []) ''g'' ''12'' = Inr True \<and>
    (\<exists>p t' v. generateMerkleProof example_env (example_s2 []) ''g'' ''12'' = Inr p \<and>
       map_of (cachedGroups (example_s2 [])) ''g'' = Some t' \<and>
       BigInt example_env ''12'' = Some v \<and> leaf p = v \<and>
       recomputed_root example_env p = CachedGroup_root example_env t' \<and>
       root p = CachedGroup_root example_env t' \<and>
       updatedGroups (example_s2 []) = updatedGroups (example_s1 []) @
         [\<lparr>id' = id_hash example_env ''g'', fingerprint = CachedGroup_root example_env t'\<rparr>])"
proof -
  have first: "addMember example_env ''c1'' ''g'' ''12'' (example_s1 []) =
     (Inr (example_group [''12'']), example_s2 [])"
    by (simp add: example_first_add example_s2_eq)
  show ?thesis by (rule C4_member_observable_after_add [OF first])
qed

text \<open>
  C5, at its failing input. \<open>createGroup\<close> builds the tree of a new group by
  \<^verbatim>\<open>new CachedGroup(treeDepth)\<close>, the constructor by \<^verbatim>\<open>new CachedGroup(groupId,
  group.treeDepth)\<close>. After creating \<open>g\<close> with depth 16 and adding the member \<open>12\<close>, the cached
  tree has the identifier 16 and the depth 20, and its root is 500; the service constructed
  anew over the same store caches for \<open>g\<close> a tree with the hash of the name as identifier and
  the depth 16, whose root, over the same leaf, is 924.
\<close>

theorem C5_createGroup_root_differs_after_restart:
  "map_of (cachedGroups (example_s2 [])) ''g'' = Some \<lparr>group_id = 16, depth = 20, leaves = [12]\<rparr> \<and>
   CachedGroup_root example_env \<lparr>group_id = 16, depth = 20, leaves = [12]\<rparr> = 500 \<and>
   groupRepository example_restart = groupRepository (example_s2 []) \<and>
   map_of (cachedGroups example_restart) ''g'' =
     Some \<lparr>group_id = 1001, depth = 16, leaves = [12]\<rparr> \<and>
   CachedGroup_root example_env \<lparr>group_id = 1001, depth = 16, leaves = [12]\<rparr> = 924"
  by (simp add: example_s2_eq example_restart_eq example_root_12 example_root_restart)

text \<open>
  C6, at its failing input. With the name \<open>g\<close> free, \<open>createGroup\<close> for depth 16 persists
  and returns the record with depth 16 and no members, and registers an empty tree under
  the name; but the tree is the one \<^verbatim>\<open>new CachedGroup(treeDepth)\<close> builds, with the
  identifier 16 and the depth 20, so it does not match the record. The other half holds
  here: with the name taken, the store rejects the save and the state is unchanged.
\<close>

theorem C6_createGroup_tree_not_matching:
  "createGroup example_env ''g'' ''d'' 16 ''t'' ''alice'' (example_s0 []) =
     (Inr (example_group []), example_s1 []) \<and>
   groupRepository (example_s1 []) = [example_group []] \<and>
   treeDepth (example_group []) = 16 \<and> members (example_group []) = [] \<and>
   map_of (cachedGroups (example_s1 [])) ''g'' =
     Some \<lparr>group_id = 16, depth = 20, leaves = []\<rparr> \<and>
   createGroup example_env ''g'' ''x'' 20 ''y'' ''bob'' (example_s1 []) =
     (Inl (NameAlreadyExists ''g''), example_s1 [])"
proof -
  have c1: "createGroup example_env ''g'' ''d'' 16 ''t'' ''alice'' (example_s0 []) =
            (Inr (example_group []), example_s1 [])"
    by (simp add: example_s1_def prod_eq_iff)
       (simp add: example_s0_eq createGroup_def save_created_def Let_def example_group_def
          CachedGroup_new_default)
  have c2: "createGroup example_env ''g'' ''x'' 20 ''y'' ''bob'' (example_s1 []) =
            (Inl (NameAlreadyExists ''g''), example_s1 [])"
    by (simp add: example_s1_eq createGroup_def save_created_def Let_def example_group_def)
  from c1 c2 show ?thesis by (simp add: example_s1_eq example_group_def)
qed

text \<open>
  C7, at its failing input. No timeout is registered in \<open>example_s1\<close> and nothing has been
  handed to \<^verbatim>\<open>zkGroups.updateGroups\<close>. \<open>addMember\<close> then calls \<^verbatim>\<open>updateContractGroups\<close>
  itself: when it returns (\<open>example_s2\<close>), the queue has already been handed over as a batch
  and the registry is still empty, so nothing was scheduled for later. The next \<open>addMember\<close>
  (\<open>example_s3\<close>) finds the registry empty again and hands over the queue again, the first
  entry included.
\<close>

theorem C7_addMember_runs_flush_at_once:
  "schedulerRegistry (example_s1 []) = [] \<and> contractCalls (example_s1 []) = [] \<and>
   addMember example_env ''c1'' ''g'' ''12'' (example_s1 []) =
     (Inr (example_group [''12'']), example_s2 []) \<and>
   schedulerRegistry (example_s2 []) = [] \<and>
   updatedGroups (example_s2 []) = [\<lparr>id' = 1001, fingerprint = 500\<rparr>] \<and>
   contractCalls (example_s2 []) = [[\<lparr>id' = 1001, fingerprint = 500\<rparr>]] \<and>
   addMember example_env ''c2'' ''g'' ''13'' (example_s2 []) =
     (Inr (example_group [''12'', ''13'']), example_s3 []) \<and>
   schedulerRegistry (example_s3 []) = [] \<and>
   contractCalls (example_s3 []) =
     [[\<lparr>id' = 1001, fingerprint = 500\<rparr>],
      [\<lparr>id' = 1001, fingerprint = 500\<rparr>, \<lparr>id' = 1001, fingerprint = 639\<rparr>]]"
proof -
  have first: "addMember example_env ''c1'' ''g'' ''12'' (example_s1 []) =
     (Inr (example_group [''12'']), example_s2 [])"
    by (simp add: example_first_add example_s2_eq)
  have second: "addMember example_env ''c2'' ''g'' ''13'' (example_s2 []) =
     (Inr (example_group [''12'', ''13'']), example_s3 [])"
    by (simp add: example_s2_eq example_s3_eq example_second_add)
  from first second show ?thesis
    by (simp add: example_s1_eq example_s2_eq example_s3_eq)
qed

text \<open>
  C8, at its failing input. One timeout is registered and the queue of \<open>example_s2\<close> holds
  the entry of the member \<open>12\<close>. The flush hands the queue to \<^verbatim>\<open>zkGroups.updateGroups\<close> and
  waits, the queue still uncleared (\<open>example_t3\<close>). While the transaction is in flight the
  member \<open>13\<close> is added and its entry is pushed (\<open>example_t4\<close>). When the transaction has
  resolved the queue is replaced by an empty one (\<open>example_t5\<close>): the entry of \<open>13\<close> is neither
  in the queue nor in any batch handed over, and the next flush finds nothing to do.
\<close>

theorem C8_entry_pushed_in_flight_is_lost:
  "updatedGroups (example_s2 [''updateContractGroups'']) = [\<lparr>id' = 1001, fingerprint = 500\<rparr>] \<and>
   contractCalls (example_s2 [''updateContractGroups'']) = [] \<and>
   updatedGroups example_t3 = [\<lparr>id' = 1001, fingerprint = 500\<rparr>] \<and>
   contractCalls example_t3 = [[\<lparr>id' = 1001, fingerprint = 500\<rparr>]] \<and>
   updatedGroups example_t4 =
     [\<lparr>id' = 1001, fingerprint = 500\<rparr>, \<lparr>id' = 1001, fingerprint = 639\<rparr>] \<and>
   contractCalls example_t4 = [[\<lparr>id' = 1001, fingerprint = 500\<rparr>]] \<and>
   updatedGroups example_t5 = [] \<and>
   contractCalls example_t5 = [[\<lparr>id' = 1001, fingerprint = 500\<rparr>]] \<and>
   \<lparr>id' = 1001, fingerprint = 639\<rparr> \<notin> set (concat (contractCalls example_t5)) \<and>
   updateContractGroups \<lparr>status = True, events = []\<rparr> example_t5 = example_t5"
  by (simp add: example_s2_eq example_t3_eq example_t4_eq example_t5_eq updateContractGroups_def)

text \<open>
  C9. No retry of a failed publication. With an empty queue the flush is a no-op: it hands
  nothing over and changes nothing. Whatever the state when the transaction has resolved
  and whatever the transaction's status, the continuation leaves the queue empty, so no
  drained entry is back in it, hands no batch over again, and touches neither store nor
  cache; it logs the error when the status is failure and the number of events when it is
  success. A whole flush leaves the queue empty.
\<close>

theorem C9_flush_drops_the_batch:
  "(updatedGroups s = [] \<longrightarrow> updateContractGroups_call s = s \<and> updateContractGroups tx s = s) \<and>
   updatedGroups (updateContractGroups_resume tx s') = [] \<and>
   contractCalls (updateContractGroups_resume tx s') = contractCalls s' \<and>
   groupRepository (updateContractGroups_resume tx s') = groupRepository s' \<and>
   cachedGroups (updateContractGroups_resume tx s') = cachedGroups s' \<and>
   (\<not> status tx \<longrightarrow>
      logger (updateContractGroups_resume tx s') = logger s' @ [ContractUpdateFailed]) \<and>
   (status tx \<longrightarrow>
      logger (updateContractGroups_resume tx s') =
        logger s' @ [ContractGroupsUpdated (length (events tx))]) \<and>
   updatedGroups (updateContractGroups tx s) = []"
  by (simp add: updateContractGroups_def updateContractGroups_call_def
      updateContractGroups_resume_def Let_def)

theorem C9_flush_witness:
  "updateContractGroups \<lparr>status = False, events = []\<rparr> (example_s1 []) = example_s1 [] \<and>
   updatedGroups (updateContractGroups_resume \<lparr>status = False, events = []\<rparr> example_t4) = [] \<and>
   contractCalls (updateContractGroups_resume \<lparr>status = False, events = []\<rparr> example_t4) =
     [[\<lparr>id' = 1001, fingerprint = 500\<rparr>]] \<and>
   logger (updateContractGroups_resume \<lparr>status = False, events = []\<rparr> example_t4) =
     [GroupsCached 0, GroupCreated ''g'', MemberAdded ''12'' ''g'', MemberAdded ''13'' ''g'',
      ContractUpdateFailed] \<and>
   logger (updateContractGroups_resume \<lparr>status = True, events = [''GroupUpdated'']\<rparr> example_t4) =
     [GroupsCached 0, GroupCreated ''g'', MemberAdded ''12'' ''g'', MemberAdded ''13'' ''g'',
      ContractGroupsUpdated 1]"
proof -
  have e: "updatedGroups (example_s1 []) = []" by (simp add: example_s1_eq)
  from C9_flush_drops_the_batch [of "example_s1 []" "\<lparr>status = False, events = []\<rparr>" example_t4] e
  have a: "updateContractGroups \<lparr>status = False, events = []\<rparr> (example_s1 []) = example_s1 [] \<and>
   updatedGroups (updateContractGroups_resume \<lparr>status = False, events = []\<rparr> example_t4) = [] \<and>
   contractCalls (updateContractGroups_resume \<lparr>status = False, events = []\<rparr> example_t4) =
     [[\<lparr>id' = 1001, fingerprint = 500\<rparr>]] \<and>
   logger (updateContractGroups_resume \<lparr>status = False, events = []\<rparr> example_t4) =
     [GroupsCached 0, GroupCreated ''g'', MemberAdded ''12'' ''g'', MemberAdded ''13'' ''g'',
      ContractUpdateFailed]"
    by (simp add: example_t4_eq)
  from C9_flush_drops_the_batch [of "example_s1 []"
      "\<lparr>status = True, events = [''GroupUpdated'']\<rparr>" example_t4]
  have b: "logger (updateContractGroups_resume \<lparr>status = True, events = [''GroupUpdated'']\<rparr> example_t4) =
     [GroupsCached 0, GroupCreated ''g'', MemberAdded ''12'' ''g'', MemberAdded ''13'' ''g'',
      ContractGroupsUpdated 1]"
    by (simp add: example_t4_eq)
  from a b show ?thesis by simp
qed

text \<open>
  C10, at its failing input. In the freshly constructed service no tree is registered
  under \<open>g\<close>. The lookup of the cached tree is not guarded: both queries throw the runtime's
  \<open>TypeError\<close> of a method call on \<^verbatim>\<open>undefined\<close>, not the exception the service has for an
  unknown group, which \<open>getGroup\<close> throws for the same name.
\<close>

theorem C10_unknown_group_unguarded:
  "map_of (cachedGroups (example_s0 [])) ''g'' = None \<and>
   isGroupMember example_env (example_s0 []) ''g'' ''12'' = Inl TypeError \<and>
   isGroupMember example_env (example_s0 []) ''g'' ''12'' \<noteq> Inl (GroupDoesNotExist ''g'') \<and>
   generateMerkleProof example_env (example_s0 []) ''g'' ''12'' = Inl TypeError \<and>
   generateMerkleProof example_env (example_s0 []) ''g'' ''12'' \<noteq> Inl (GroupDoesNotExist ''g'') \<and>
   getGroup (example_s0 []) ''g'' = Inl (GroupDoesNotExist ''g'')"
  by (simp add: example_s0_eq isGroupMember_def generateMerkleProof_def getGroup_def
      findOneBy_name_def)

end
